theory Spec2Isabelle
  imports Main
begin

section \<open>Data model (src/types.ts)\<close>

datatype HTTPMethod = POST | PUT | PATCH | DELETE

text \<open>A JSON value is kept as its text; a \<open>Record<string, string>\<close> is a map.\<close>

type_synonym json = string
type_synonym header_map = "string \<rightharpoonup> string"

text \<open>
  \<open>Omit<RequestPayload, "id" | "timestamp" | "retryCount">\<close>, the argument of
  \<open>addRequest\<close>, and \<open>RequestPayload\<close> itself. The field \<open>id\<close> is \<open>req_id\<close> and
  \<open>method\<close> is \<open>http_method\<close> here; \<open>body\<close> and \<open>headers\<close> are optional.
  \<open>retryCount\<close> is a natural number: the engine only ever stores 0 and increments.
\<close>

record request_input =
  url :: string
  http_method :: HTTPMethod
  body :: "json option"
  headers :: "header_map option"

record RequestPayload = request_input +
  req_id :: string
  timestamp :: nat
  retryCount :: nat

text \<open>
  \<open>SyncConfig\<close>: each optional callback is modelled by whether it is configured. What
  \<open>prepareHeaders\<close> produces is supplied by the environment when its promise settles;
  the calls of \<open>onSuccess\<close> and \<open>onError\<close> are recorded in the engine's observation
  lists; the callbacks are taken not to throw. \<open>debug\<close> only gates console output,
  which is not modelled.
\<close>

record SyncConfig =
  prepareHeaders :: bool
  onSuccess :: bool
  onError :: bool
  debug :: bool

section \<open>The environment: thrown values, responses, calls of fetch\<close>

text \<open>
  A thrown value \<open>error\<close>, as far as \<open>error.message.includes("Client Error")\<close> can
  tell: \<open>Error m\<close> is a value whose \<open>message\<close> is the string \<open>m\<close>; \<open>Non_error\<close> is
  a value on which that expression itself throws a TypeError (\<open>undefined\<close>, \<open>null\<close>, a
  thrown string, an object without a message).
\<close>

datatype thrown = Error string | Non_error

text \<open>
  What \<open>fetch\<close> resolves to. \<open>status\<close> and \<open>statusText\<close> may be missing (the tests
  resolve \<open>fetch\<close> to objects such as \<open>{ ok: false, statusText: ... }\<close> and
  \<open>{ ok: true }\<close>); \<open>json_m\<close> is what \<open>response.json()\<close> does.
\<close>

datatype json_method = Json_resolves json | Json_rejects | Json_absent

record response =
  ok :: bool
  status :: "int option"
  statusText :: "string option"
  json_m :: json_method

record fetch_call =
  f_url :: string
  f_method :: HTTPMethod
  f_headers :: header_map
  f_body :: "json option"

section \<open>Strings: template literals and String.prototype.includes\<close>

definition digit :: "nat \<Rightarrow> char" where
  "digit d = ''0123456789'' ! (d mod 10)"

fun digits :: "nat \<Rightarrow> string" where
  "digits n = (if n < 10 then [digit n] else digits (n div 10) @ [digit n])"

declare digits.simps [simp del]

text \<open>\<open>`${response.status}`\<close> and \<open>`${response.statusText}`\<close>.\<close>

definition show_status :: "int option \<Rightarrow> string" where
  "show_status st =
     (case st of
        None \<Rightarrow> ''undefined''
      | Some i \<Rightarrow> if i < 0 then CHR ''-'' # digits (nat (- i)) else digits (nat i))"

definition show_text :: "string option \<Rightarrow> string" where
  "show_text t = (case t of None \<Rightarrow> ''undefined'' | Some x \<Rightarrow> x)"

text \<open>\<open>s.includes(sub)\<close>: \<open>sub\<close> occurs in \<open>s\<close> at some position.\<close>

fun str_includes :: "string \<Rightarrow> string \<Rightarrow> bool" where
  "str_includes [] sub = (sub = [])"
| "str_includes (c # cs) sub = (take (length sub) (c # cs) = sub \<or> str_includes cs sub)"

section \<open>Suspended calls and the engine state (src/core/SyncEngine.ts)\<close>

text \<open>
  An \<open>async\<close> method runs until its next \<open>await\<close> and is resumed later. A suspended
  call is recorded with its live local variable \<open>currentReq\<close> (\<open>req\<close> in
  \<open>handleRetry\<close>, \<open>payload\<close> in \<open>addRequest\<close>).

  \<open>storage_task\<close>: calls waiting for \<open>idb-keyval\<close>:
  \<^item> \<open>AR_update\<close>: \<open>addRequest\<close> at \<open>await update(QUEUE_KEY, old => [...old, payload])\<close>;
  \<^item> \<open>PQ_get\<close>: \<open>processQueue\<close> at \<open>await get(QUEUE_KEY)\<close>;
  \<^item> \<open>PQ_pop_ok\<close>: \<open>processQueue\<close> at \<open>await update(QUEUE_KEY, old => old.slice(1))\<close>
    after a success;
  \<^item> \<open>PQ_pop_4xx\<close>: the same \<open>await\<close> in the client-error branch of the \<open>catch\<close>;
  \<^item> \<open>HR_update\<close>: \<open>handleRetry\<close> at its \<open>await update(...)\<close>.

  \<open>env_task\<close>: calls of \<open>processQueue\<close> waiting for \<open>prepareHeaders()\<close>, for
  \<open>fetch(...)\<close>, and for \<open>response.json().catch(() => ({}))\<close> (with the value it will
  produce).
\<close>

datatype storage_task =
    AR_update RequestPayload
  | PQ_get
  | PQ_pop_ok RequestPayload
  | PQ_pop_4xx RequestPayload
  | HR_update RequestPayload

datatype env_task =
    PQ_headers RequestPayload
  | PQ_fetch RequestPayload
  | PQ_json RequestPayload json

text \<open>
  The engine with its environment. \<open>store\<close> is the value under \<open>QUEUE_KEY\<close> (a missing
  value reads as the empty queue, as \<open>(await get(QUEUE_KEY)) || []\<close> and the default
  parameter \<open>old = []\<close> have it); \<open>onLine\<close> is \<open>navigator.onLine\<close>. Storage operations
  are atomic and complete in the order they were issued, so \<open>opq\<close> is a FIFO queue;
  the calls in \<open>waiting\<close> and the timers in \<open>timers\<close> (the delays given to
  \<open>setTimeout\<close>) may complete in any order. The last four fields record what the
  engine did: the values passed to the listeners by \<open>notifyListeners\<close>, the calls of
  \<open>fetch\<close>, and the calls of \<open>onSuccess\<close> and \<open>onError\<close>. A listener that stays
  subscribed receives the values of \<open>notified\<close> from its subscription on (\<open>subscribe\<close>
  also calls it once with the flag as it is then).
\<close>

record engine =
  store :: "RequestPayload list"
  isSyncing :: bool
  config :: SyncConfig
  onLine :: bool
  opq :: "storage_task list"
  waiting :: "env_task list"
  timers :: "nat list"
  notified :: "bool list"
  fetched :: "fetch_call list"
  succeeded :: "(json \<times> RequestPayload) list"
  failed :: "(thrown \<times> RequestPayload) list"

text \<open>\<open>new SyncEngine()\<close> over a persisted queue \<open>q\<close>, with \<open>navigator.onLine = b\<close>.\<close>

definition init :: "RequestPayload list \<Rightarrow> bool \<Rightarrow> engine" where
  "init q b =
     \<lparr>store = q, isSyncing = False,
      config = \<lparr>prepareHeaders = False, onSuccess = False, onError = False, debug = False\<rparr>,
      onLine = b, opq = [], waiting = [], timers = [],
      notified = [], fetched = [], succeeded = [], failed = []\<rparr>"

subsection \<open>configure, notifyListeners\<close>

definition configure :: "SyncConfig \<Rightarrow> engine \<Rightarrow> engine" where
  "configure c s = s\<lparr>config := c\<rparr>"

definition notifyListeners :: "engine \<Rightarrow> engine" where
  "notifyListeners s = s\<lparr>notified := notified s @ [isSyncing s]\<rparr>"

subsection \<open>processQueue\<close>

text \<open>The call itself: the guard, the flag, the first notification, up to \<open>await get\<close>.\<close>

definition processQueue :: "engine \<Rightarrow> engine" where
  "processQueue s =
     (if isSyncing s \<or> \<not> onLine s then s
      else let s1 = notifyListeners (s\<lparr>isSyncing := True\<rparr>)
           in s1\<lparr>opq := opq s1 @ [PQ_get]\<rparr>)"

text \<open>The outer \<open>catch (err) { this.isSyncing = false }\<close> followed by \<open>finally\<close>.\<close>

definition processQueue_outer_catch :: "engine \<Rightarrow> engine" where
  "processQueue_outer_catch s = notifyListeners (s\<lparr>isSyncing := False\<rparr>)"

text \<open>
  \<open>handleRetry(req)\<close> up to its \<open>await update\<close>, and its continuation once the update
  has been applied: the delay, the release of the flag, the timer.
\<close>

definition handleRetry :: "RequestPayload \<Rightarrow> engine \<Rightarrow> engine" where
  "handleRetry req s = s\<lparr>opq := opq s @ [HR_update req]\<rparr>"

definition retry_update :: "RequestPayload \<Rightarrow> RequestPayload list \<Rightarrow> RequestPayload list" where
  "retry_update req old =
     (case old of
        [] \<Rightarrow> []
      | head # rest \<Rightarrow>
          if req_id head \<noteq> req_id req then old
          else head\<lparr>retryCount := retryCount head + 1\<rparr> # rest)"

definition backoff_delay :: "RequestPayload \<Rightarrow> nat" where
  "backoff_delay req = (let retryCount' = retryCount req + 1 in min (1000 * 2 ^ retryCount') 30000)"

definition handleRetry_updated :: "RequestPayload \<Rightarrow> engine \<Rightarrow> engine" where
  "handleRetry_updated req s =
     (let delay = backoff_delay req;
          s1 = notifyListeners (s\<lparr>isSyncing := False\<rparr>)
      in s1\<lparr>timers := timers s1 @ [delay]\<rparr>)"

text \<open>
  The inner \<open>catch (error)\<close>. \<open>error.message.includes\<close> throws on a \<open>Non_error\<close>, which
  the outer \<open>catch\<close> receives. Otherwise the message decides: the client-error branch
  calls \<open>onError\<close> and suspends at the \<open>update\<close> that drops the head; the other branch
  calls \<open>handleRetry\<close> without awaiting it, so \<open>finally\<close> runs at once.
\<close>

definition isClientError :: "string \<Rightarrow> bool" where
  "isClientError message = str_includes message ''Client Error''"

definition processQueue_catch :: "thrown \<Rightarrow> RequestPayload \<Rightarrow> engine \<Rightarrow> engine" where
  "processQueue_catch error currentReq s =
     (case error of
        Non_error \<Rightarrow> processQueue_outer_catch s
      | Error message \<Rightarrow>
          if isClientError message then
            (let s1 = (if onError (config s)
                       then s\<lparr>failed := failed s @ [(error, currentReq)]\<rparr> else s)
             in s1\<lparr>opq := opq s1 @ [PQ_pop_4xx currentReq]\<rparr>)
          else notifyListeners (handleRetry currentReq s))"

text \<open>The headers object literal of the \<open>fetch\<close> call: later spreads win.\<close>

definition merge_headers :: "header_map option \<Rightarrow> header_map \<Rightarrow> header_map" where
  "merge_headers static dynamicHeaders =
     [''Content-Type'' \<mapsto> ''application/json'']
       ++ (case static of None \<Rightarrow> Map.empty | Some h \<Rightarrow> h)
       ++ dynamicHeaders"

definition fetch_of :: "RequestPayload \<Rightarrow> header_map \<Rightarrow> fetch_call" where
  "fetch_of currentReq dynamicHeaders =
     \<lparr>f_url = url currentReq, f_method = http_method currentReq,
      f_headers = merge_headers (headers currentReq) dynamicHeaders,
      f_body = body currentReq\<rparr>"

text \<open>The call of \<open>fetch\<close>, up to its \<open>await\<close>.\<close>

definition processQueue_send :: "RequestPayload \<Rightarrow> header_map \<Rightarrow> engine \<Rightarrow> engine" where
  "processQueue_send currentReq dynamicHeaders s =
     s\<lparr>fetched := fetched s @ [fetch_of currentReq dynamicHeaders],
       waiting := waiting s @ [PQ_fetch currentReq]\<rparr>"

text \<open>
  After \<open>await get\<close>: the empty queue clears the flag, notifies and returns through
  \<open>finally\<close> (a second notification); otherwise \<open>currentReq = queue[0]\<close>, and the
  call either waits for \<open>prepareHeaders()\<close> or, with none configured, sends at once.
\<close>

definition processQueue_got :: "RequestPayload list \<Rightarrow> engine \<Rightarrow> engine" where
  "processQueue_got queue s =
     (case queue of
        [] \<Rightarrow> notifyListeners (notifyListeners (s\<lparr>isSyncing := False\<rparr>))
      | currentReq # _ \<Rightarrow>
          if prepareHeaders (config s)
          then s\<lparr>waiting := waiting s @ [PQ_headers currentReq]\<rparr>
          else processQueue_send currentReq Map.empty s)"

text \<open>After \<open>await prepareHeaders()\<close>: a rejection is caught by the inner \<open>catch\<close>.\<close>

definition processQueue_headers :: "RequestPayload \<Rightarrow> thrown + header_map \<Rightarrow> engine \<Rightarrow> engine" where
  "processQueue_headers currentReq r s =
     (case r of
        Inl error \<Rightarrow> processQueue_catch error currentReq s
      | Inr dynamicHeaders \<Rightarrow> processQueue_send currentReq dynamicHeaders s)"

text \<open>
  After \<open>await fetch\<close>: a rejection and the two thrown errors
  (\<open>new Error(`Client Error ${response.status}: ${response.statusText}`)\<close> and
  \<open>new Error(`Server Error ${response.status}`)\<close>) go to the inner \<open>catch\<close>; so does the TypeError of calling a missing \<open>response.json\<close>. Otherwise
  the call waits for the body, \<open>{}\<close> if \<open>json()\<close> rejects.
\<close>

definition client_error :: "response \<Rightarrow> thrown" where
  "client_error resp =
     Error (''Client Error '' @ show_status (status resp) @ '': '' @ show_text (statusText resp))"

definition server_error :: "response \<Rightarrow> thrown" where
  "server_error resp = Error (''Server Error '' @ show_status (status resp))"

definition processQueue_response :: "RequestPayload \<Rightarrow> thrown + response \<Rightarrow> engine \<Rightarrow> engine" where
  "processQueue_response currentReq r s =
     (case r of
        Inl error \<Rightarrow> processQueue_catch error currentReq s
      | Inr resp \<Rightarrow>
          if \<not> ok resp then
            (if (case status resp of None \<Rightarrow> False | Some st \<Rightarrow> 400 \<le> st \<and> st < 500)
             then processQueue_catch (client_error resp) currentReq s
             else processQueue_catch (server_error resp) currentReq s)
          else
            (case json_m resp of
               Json_absent \<Rightarrow>
                 processQueue_catch (Error ''response.json is not a function'') currentReq s
             | Json_resolves data \<Rightarrow> s\<lparr>waiting := waiting s @ [PQ_json currentReq data]\<rparr>
             | Json_rejects \<Rightarrow> s\<lparr>waiting := waiting s @ [PQ_json currentReq ''{}'']\<rparr>))"

text \<open>After the body: \<open>onSuccess\<close>, then up to \<open>await update(..., old => old.slice(1))\<close>.\<close>

definition processQueue_success :: "RequestPayload \<Rightarrow> json \<Rightarrow> engine \<Rightarrow> engine" where
  "processQueue_success currentReq data s =
     (let s1 = (if onSuccess (config s)
                then s\<lparr>succeeded := succeeded s @ [(data, currentReq)]\<rparr> else s)
      in s1\<lparr>opq := opq s1 @ [PQ_pop_ok currentReq]\<rparr>)"

text \<open>
  After either \<open>update\<close> that drops the head: the call \<open>this.processQueue()\<close> (not
  awaited), then \<open>finally\<close>.
\<close>

definition processQueue_popped :: "engine \<Rightarrow> engine" where
  "processQueue_popped s = notifyListeners (processQueue s)"

subsection \<open>addRequest\<close>

definition new_payload :: "request_input \<Rightarrow> string \<Rightarrow> nat \<Rightarrow> RequestPayload" where
  "new_payload req uuid now =
     \<lparr>url = url req, http_method = http_method req, body = body req, headers = headers req,
      req_id = uuid, timestamp = now, retryCount = 0\<rparr>"

text \<open>
  \<open>addRequest(req)\<close> up to \<open>await update\<close>, where \<open>crypto.randomUUID()\<close> returned
  \<open>uuid\<close> and \<open>Date.now()\<close> returned \<open>now\<close>; and its continuation.
\<close>

definition addRequest :: "request_input \<Rightarrow> string \<Rightarrow> nat \<Rightarrow> engine \<Rightarrow> engine" where
  "addRequest req uuid now s = s\<lparr>opq := opq s @ [AR_update (new_payload req uuid now)]\<rparr>"

definition addRequest_updated :: "engine \<Rightarrow> engine" where
  "addRequest_updated s = (if onLine s then processQueue s else s)"

subsection \<open>Events\<close>

text \<open>
  One step of the single-threaded event loop: a call into the engine from outside,
  a change of \<open>navigator.onLine\<close>, or the completion of something a suspended call
  awaits, after which that call runs to its next \<open>await\<close>.
\<close>

datatype event =
    Add_request request_input string nat
  | Window_online
  | Set_onLine bool
  | Configure SyncConfig
  | Storage_done
  | Storage_fail thrown
  | Headers_done nat "thrown + header_map"
  | Fetch_done nat "thrown + response"
  | Json_done nat
  | Timer_fire nat

definition remove_nth :: "nat \<Rightarrow> 'a list \<Rightarrow> 'a list" where
  "remove_nth i xs = take i xs @ drop (Suc i) xs"

text \<open>The oldest storage operation succeeds: its effect, then the continuation.\<close>

definition storage_resolved :: "storage_task \<Rightarrow> engine \<Rightarrow> engine" where
  "storage_resolved t s =
     (case t of
        AR_update payload \<Rightarrow> addRequest_updated (s\<lparr>store := store s @ [payload]\<rparr>)
      | PQ_get \<Rightarrow> processQueue_got (store s) s
      | PQ_pop_ok currentReq \<Rightarrow> processQueue_popped (s\<lparr>store := drop 1 (store s)\<rparr>)
      | PQ_pop_4xx currentReq \<Rightarrow> processQueue_popped (s\<lparr>store := drop 1 (store s)\<rparr>)
      | HR_update req \<Rightarrow> handleRetry_updated req (s\<lparr>store := retry_update req (store s)\<rparr>))"

text \<open>
  The oldest storage operation fails with \<open>err\<close> and leaves the store as it was.
  \<open>addRequest\<close> and \<open>handleRetry\<close> pass the rejection on; in \<open>processQueue\<close> it is
  caught by the \<open>catch\<close> around the \<open>await\<close>.
\<close>

definition storage_rejected :: "storage_task \<Rightarrow> thrown \<Rightarrow> engine \<Rightarrow> engine" where
  "storage_rejected t err s =
     (case t of
        AR_update payload \<Rightarrow> s
      | PQ_get \<Rightarrow> processQueue_outer_catch s
      | PQ_pop_ok currentReq \<Rightarrow> processQueue_catch err currentReq s
      | PQ_pop_4xx currentReq \<Rightarrow> processQueue_outer_catch s
      | HR_update req \<Rightarrow> s)"

text \<open>The \<open>setTimeout\<close> callback: \<open>if (navigator.onLine) this.processQueue()\<close>.\<close>

definition timer_fired :: "engine \<Rightarrow> engine" where
  "timer_fired s = (if onLine s then processQueue s else s)"

definition step :: "event \<Rightarrow> engine \<Rightarrow> engine" where
  "step e s =
     (case e of
        Add_request req uuid now \<Rightarrow> addRequest req uuid now s
      | Window_online \<Rightarrow> processQueue s
      | Set_onLine b \<Rightarrow> s\<lparr>onLine := b\<rparr>
      | Configure c \<Rightarrow> configure c s
      | Storage_done \<Rightarrow>
          (case opq s of [] \<Rightarrow> s | t # rest \<Rightarrow> storage_resolved t (s\<lparr>opq := rest\<rparr>))
      | Storage_fail err \<Rightarrow>
          (case opq s of [] \<Rightarrow> s | t # rest \<Rightarrow> storage_rejected t err (s\<lparr>opq := rest\<rparr>))
      | Headers_done i r \<Rightarrow>
          (if i < length (waiting s) then
             (case waiting s ! i of
                PQ_headers currentReq \<Rightarrow>
                  processQueue_headers currentReq r (s\<lparr>waiting := remove_nth i (waiting s)\<rparr>)
              | _ \<Rightarrow> s)
           else s)
      | Fetch_done i r \<Rightarrow>
          (if i < length (waiting s) then
             (case waiting s ! i of
                PQ_fetch currentReq \<Rightarrow>
                  processQueue_response currentReq r (s\<lparr>waiting := remove_nth i (waiting s)\<rparr>)
              | _ \<Rightarrow> s)
           else s)
      | Json_done i \<Rightarrow>
          (if i < length (waiting s) then
             (case waiting s ! i of
                PQ_json currentReq data \<Rightarrow>
                  processQueue_success currentReq data (s\<lparr>waiting := remove_nth i (waiting s)\<rparr>)
              | _ \<Rightarrow> s)
           else s)
      | Timer_fire i \<Rightarrow>
          (if i < length (timers s)
           then timer_fired (s\<lparr>timers := remove_nth i (timers s)\<rparr>) else s))"

text \<open>A run of events, oldest first.\<close>

definition run :: "event list \<Rightarrow> engine \<Rightarrow> engine" where
  "run es s = fold step es s"

section \<open>Notions used in the proofs\<close>

text \<open>
  A call of \<open>processQueue\<close> or \<open>handleRetry\<close> that is suspended has passed the guard
  \<open>if (this.isSyncing || !navigator.onLine) return\<close> and not yet released the flag;
  a suspended \<open>addRequest\<close> has not.
\<close>

fun is_AR :: "storage_task \<Rightarrow> bool" where
  "is_AR (AR_update p) = True"
| "is_AR t = False"

definition holders :: "engine \<Rightarrow> storage_task list" where
  "holders s = filter (\<lambda>t. \<not> is_AR t) (opq s)"

definition free :: "engine \<Rightarrow> bool" where
  "free s = (holders s = [] \<and> waiting s = [])"

text \<open>The flag is set and no suspended call is left that could clear it.\<close>

definition stuck :: "engine \<Rightarrow> bool" where
  "stuck s = (isSyncing s \<and> free s)"

text \<open>The local variable of a suspended call is the head of the persisted queue.\<close>

fun head_is :: "RequestPayload \<Rightarrow> RequestPayload list \<Rightarrow> bool" where
  "head_is r [] = False"
| "head_is r (h # rest) = (h = r)"

fun storage_ok :: "storage_task \<Rightarrow> RequestPayload list \<Rightarrow> bool" where
  "storage_ok (PQ_pop_ok r) q = head_is r q"
| "storage_ok (PQ_pop_4xx r) q = head_is r q"
| "storage_ok (HR_update r) q = head_is r q"
| "storage_ok t q = True"

fun env_req :: "env_task \<Rightarrow> RequestPayload" where
  "env_req (PQ_headers r) = r"
| "env_req (PQ_fetch r) = r"
| "env_req (PQ_json r d) = r"

text \<open>
  The invariant of the engine: at most one call holds the flag; while one does the
  flag is set, and the request the call works on is the head of the persisted queue.
\<close>

definition pass_inv :: "engine \<Rightarrow> bool" where
  "pass_inv s =
     (free s \<or>
      isSyncing s \<and>
        ((\<exists>t. holders s = [t] \<and> waiting s = [] \<and> storage_ok t (store s)) \<or>
         (\<exists>w. holders s = [] \<and> waiting s = [w] \<and> head_is (env_req w) (store s))))"

text \<open>What one step may add to the calls of \<open>fetch\<close>, and how it may change the queue.\<close>

definition submits_head :: "engine \<Rightarrow> engine \<Rightarrow> bool" where
  "submits_head s s' =
     (fetched s' = fetched s \<or>
      (\<exists>currentReq rest dynamicHeaders.
          store s = currentReq # rest \<and> store s' = store s \<and>
          fetched s' = fetched s @ [fetch_of currentReq dynamicHeaders]))"

definition queue_step :: "RequestPayload list \<Rightarrow> RequestPayload list \<Rightarrow> bool" where
  "queue_step q q' =
     (q' = q \<or> (\<exists>p. q' = q @ [p]) \<or> q' = drop 1 q \<or>
      (\<exists>h rest. q = h # rest \<and> q' = h\<lparr>retryCount := retryCount h + 1\<rparr> # rest))"

text \<open>
  Where a call of \<open>fetch\<close> comes from: the step in which \<open>prepareHeaders()\<close>
  resolves, or, with no \<open>prepareHeaders\<close> configured, the step in which the queue
  has been read.
\<close>

definition fetch_origin :: "event \<Rightarrow> engine \<Rightarrow> bool" where
  "fetch_origin e s =
     (fetched (step e s) = fetched s
      \<or> (\<exists>i currentReq dyn.
            e = Headers_done i (Inr dyn) \<and> i < length (waiting s) \<and>
            waiting s ! i = PQ_headers currentReq \<and>
            fetched (step e s) = fetched s @ [fetch_of currentReq dyn])
      \<or> (\<exists>currentReq queue rest.
            e = Storage_done \<and> opq s = PQ_get # rest \<and> store s = currentReq # queue \<and>
            \<not> prepareHeaders (config s) \<and>
            fetched (step e s) = fetched s @ [fetch_of currentReq Map.empty]))"

text \<open>
  The calls of \<open>addRequest\<close> in a run, with what \<open>crypto.randomUUID()\<close> and
  \<open>Date.now()\<close> returned; the events of a run that only enqueues; the payloads of the
  suspended \<open>addRequest\<close> calls.
\<close>

fun enqueue_calls :: "event list \<Rightarrow> (request_input \<times> string \<times> nat) list" where
  "enqueue_calls [] = []"
| "enqueue_calls (Add_request req uuid now # es) = (req, uuid, now) # enqueue_calls es"
| "enqueue_calls (e # es) = enqueue_calls es"

fun enqueue_only :: "event \<Rightarrow> bool" where
  "enqueue_only (Add_request req uuid now) = True"
| "enqueue_only Storage_done = True"
| "enqueue_only e = False"

fun pending :: "storage_task list \<Rightarrow> RequestPayload list" where
  "pending [] = []"
| "pending (AR_update p # ts) = p # pending ts"
| "pending (t # ts) = pending ts"

section \<open>Concrete runs\<close>

text \<open>
  The requests of the test \<open>should process queue when "online" event fires\<close>
  (\<open>{ url: "/api/1", method: "POST" }\<close> and \<open>{ url: "/api/2", method: "POST" }\<close>), and
  some responses: a success, a 404, and the object the test
  \<open>should keep item in queue if fetch fails\<close> resolves \<open>fetch\<close> to.
\<close>

definition req1 :: request_input where
  "req1 = \<lparr>url = ''/api/1'', http_method = POST, body = None, headers = None\<rparr>"

definition req2 :: request_input where
  "req2 = \<lparr>url = ''/api/2'', http_method = POST, body = None, headers = None\<rparr>"

definition item1 :: RequestPayload where
  "item1 = new_payload req1 ''uuid-1'' 1"

definition item2 :: RequestPayload where
  "item2 = new_payload req2 ''uuid-2'' 2"

definition ok_response :: response where
  "ok_response =
     \<lparr>ok = True, status = Some 200, statusText = Some ''OK'', json_m = Json_resolves ''{}''\<rparr>"

definition not_found :: response where
  "not_found =
     \<lparr>ok = False, status = Some 404, statusText = Some ''Not Found'', json_m = Json_rejects\<rparr>"

definition no_status :: response where
  "no_status =
     \<lparr>ok = False, status = None, statusText = Some ''Internal Server Error'',
      json_m = Json_absent\<rparr>"

definition with_onError :: SyncConfig where
  "with_onError = \<lparr>prepareHeaders = False, onSuccess = False, onError = True, debug = False\<rparr>"

definition with_prepareHeaders :: SyncConfig where
  "with_prepareHeaders =
     \<lparr>prepareHeaders = True, onSuccess = False, onError = True, debug = False\<rparr>"

text \<open>Two requests are enqueued, each call awaited before the next.\<close>

definition two_queued :: "event list" where
  "two_queued =
     [Add_request req1 ''uuid-1'' 1, Storage_done, Add_request req2 ''uuid-2'' 2, Storage_done]"

text \<open>
  Offline, two requests are enqueued; then the network returns, the \<open>online\<close> event
  fires, the queue is read, the first request is sent and answered with a success,
  its body is read, and the head is dropped.
\<close>

definition first_succeeds :: "event list" where
  "first_succeeds =
     two_queued @
     [Set_onLine True, Window_online, Storage_done, Fetch_done 0 (Inr ok_response), Json_done 0,
      Storage_done]"

text \<open>
  Online, one request is enqueued, which starts a pass; the request is sent, answered
  with a success, and dropped from the queue.
\<close>

definition one_succeeds :: "event list" where
  "one_succeeds =
     [Add_request req1 ''uuid-1'' 1, Storage_done, Storage_done, Fetch_done 0 (Inr ok_response),
      Json_done 0, Storage_done]"

text \<open>As \<open>first_succeeds\<close>, with \<open>onError\<close> configured and a 404 for the first request.\<close>

definition first_rejected :: "event list" where
  "first_rejected =
     Configure with_onError # two_queued @
     [Set_onLine True, Window_online, Storage_done, Fetch_done 0 (Inr not_found), Storage_done]"

text \<open>
  Online, with \<open>prepareHeaders\<close> and \<open>onError\<close> configured, one request is enqueued and
  the pass it starts is at \<open>await get(QUEUE_KEY)\<close>.
\<close>

definition reading_queue :: "event list" where
  "reading_queue = [Configure with_prepareHeaders, Add_request req1 ''uuid-1'' 1, Storage_done]"

text \<open>
  Online, with \<open>prepareHeaders\<close> and \<open>onError\<close> configured, one request is enqueued and
  the pass it starts reaches \<open>await this.config.prepareHeaders()\<close>.
\<close>

definition awaiting_headers :: "event list" where
  "awaiting_headers =
     [Configure with_prepareHeaders, Add_request req1 ''uuid-1'' 1, Storage_done, Storage_done]"

text \<open>Online, one request is enqueued and the pass it starts reaches \<open>await fetch\<close>.\<close>

definition awaiting_fetch :: "event list" where
  "awaiting_fetch = [Add_request req1 ''uuid-1'' 1, Storage_done, Storage_done]"

section \<open>Basic facts\<close>

lemmas engine_defs = step_def addRequest_def addRequest_updated_def processQueue_def
  notifyListeners_def storage_resolved_def storage_rejected_def processQueue_got_def
  processQueue_send_def processQueue_response_def processQueue_success_def
  processQueue_popped_def processQueue_catch_def processQueue_outer_catch_def handleRetry_def
  handleRetry_updated_def timer_fired_def configure_def processQueue_headers_def

lemmas run_defs = engine_defs retry_update_def backoff_delay_def remove_nth_def
  new_payload_def Let_def

lemmas inv_defs = pass_inv_def free_def holders_def

lemma notify_fields [simp]:
  "store (notifyListeners s) = store s" "isSyncing (notifyListeners s) = isSyncing s"
  "config (notifyListeners s) = config s" "onLine (notifyListeners s) = onLine s"
  "opq (notifyListeners s) = opq s" "waiting (notifyListeners s) = waiting s"
  "timers (notifyListeners s) = timers s" "fetched (notifyListeners s) = fetched s"
  "succeeded (notifyListeners s) = succeeded s" "failed (notifyListeners s) = failed s"
  "notified (notifyListeners s) = notified s @ [isSyncing s]"
  by (simp_all add: notifyListeners_def)

lemma processQueue_fields [simp]:
  "store (processQueue s) = store s" "fetched (processQueue s) = fetched s"
  "failed (processQueue s) = failed s" "succeeded (processQueue s) = succeeded s"
  "timers (processQueue s) = timers s" "waiting (processQueue s) = waiting s"
  "config (processQueue s) = config s" "onLine (processQueue s) = onLine s"
  by (simp_all add: processQueue_def Let_def)

lemma catch_fields [simp]:
  "store (processQueue_catch e cur s) = store s"
  "fetched (processQueue_catch e cur s) = fetched s"
  "succeeded (processQueue_catch e cur s) = succeeded s"
  "timers (processQueue_catch e cur s) = timers s"
  "waiting (processQueue_catch e cur s) = waiting s"
  by (cases e; simp add: processQueue_catch_def processQueue_outer_catch_def handleRetry_def
        Let_def)+

lemma send_fields [simp]:
  "store (processQueue_send cur d s) = store s"
  "fetched (processQueue_send cur d s) = fetched s @ [fetch_of cur d]"
  "failed (processQueue_send cur d s) = failed s" "opq (processQueue_send cur d s) = opq s"
  by (simp_all add: processQueue_send_def)

lemma response_fields [simp]:
  "store (processQueue_response cur r s) = store s"
  "fetched (processQueue_response cur r s) = fetched s"
  by (cases r; simp add: processQueue_response_def split: json_method.split)+

lemma success_fields [simp]:
  "store (processQueue_success cur d s) = store s"
  "fetched (processQueue_success cur d s) = fetched s"
  by (simp_all add: processQueue_success_def Let_def)

lemma popped_fields [simp]:
  "store (processQueue_popped s) = store s" "fetched (processQueue_popped s) = fetched s"
  by (simp_all add: processQueue_popped_def)

lemma retry_updated_fields [simp]:
  "store (handleRetry_updated r s) = store s" "fetched (handleRetry_updated r s) = fetched s"
  "failed (handleRetry_updated r s) = failed s"
  "succeeded (handleRetry_updated r s) = succeeded s"
  "timers (handleRetry_updated r s) = timers s @ [backoff_delay r]"
  "isSyncing (handleRetry_updated r s) = False"
  by (simp_all add: handleRetry_updated_def Let_def)

lemma outer_catch_fields [simp]:
  "store (processQueue_outer_catch s) = store s"
  "fetched (processQueue_outer_catch s) = fetched s"
  by (simp_all add: processQueue_outer_catch_def)

lemma run_Nil [simp]: "run [] s = s"
  by (simp add: run_def)

lemma run_Cons [simp]: "run (e # es) s = run es (step e s)"
  by (simp add: run_def)

lemma run_append: "run (es @ es') s = run es' (run es s)"
  by (simp add: run_def)

section \<open>Classifying the thrown error by its message\<close>

lemma str_includes_absent_char: "c \<notin> set s \<Longrightarrow> \<not> str_includes s (c # sub)"
  by (induction s) auto

lemma digit_in: "digit d \<in> set ''0123456789''"
  unfolding digit_def by (rule nth_mem) simp

lemma digits_chars: "set (digits n) \<subseteq> set ''0123456789''"
proof (induction n rule: digits.induct)
  case (1 n)
  show ?case
  proof (cases "n < 10")
    case True
    then show ?thesis using digit_in[of n] by (subst digits.simps) simp
  next
    case False
    with 1 digit_in[of n] show ?thesis by (subst digits.simps) simp
  qed
qed

lemma show_status_no_C: "CHR ''C'' \<notin> set (show_status st)"
proof (cases st)
  case None
  then show ?thesis by (simp add: show_status_def)
next
  case (Some i)
  have "CHR ''C'' \<notin> set (digits n)" for n using digits_chars[of n] by auto
  with Some show ?thesis by (simp add: show_status_def)
qed

text \<open>\<open>`Server Error ${response.status}`\<close> never contains \<open>Client Error\<close>.\<close>

lemma server_error_not_client: "\<exists>m. server_error resp = Error m \<and> \<not> isClientError m"
proof -
  have "CHR ''C'' \<notin> set (''Server Error '' @ show_status (status resp))"
    using show_status_no_C[of "status resp"] by simp
  then have "\<not> isClientError (''Server Error '' @ show_status (status resp))"
    unfolding isClientError_def by (rule str_includes_absent_char)
  then show ?thesis by (simp add: server_error_def)
qed

lemma client_error_is_client: "\<exists>m. client_error resp = Error m \<and> isClientError m"
  by (simp add: client_error_def isClientError_def)

lemma no_json_not_client: "\<not> isClientError ''response.json is not a function''"
  by (simp add: isClientError_def)

section \<open>The retry path\<close>

lemma catch_retry:
  "\<not> isClientError m \<Longrightarrow>
     processQueue_catch (Error m) cur s = notifyListeners (s\<lparr>opq := opq s @ [HR_update cur]\<rparr>)"
  by (simp add: processQueue_catch_def handleRetry_def)

lemma retry_update_ids: "map req_id (retry_update req old) = map req_id old"
  by (cases old) (simp_all add: retry_update_def)

lemma retry_completes:
  "opq s = HR_update cur # rest \<Longrightarrow>
     timers (step Storage_done s) = timers s @ [backoff_delay cur] \<and>
     store (step Storage_done s) = retry_update cur (store s) \<and>
     failed (step Storage_done s) = failed s \<and> succeeded (step Storage_done s) = succeeded s \<and>
     fetched (step Storage_done s) = fetched s \<and>
     \<not> isSyncing (step Storage_done s) \<and> opq (step Storage_done s) = rest"
  by (simp add: step_def storage_resolved_def handleRetry_updated_def Let_def)

lemma backoff_mono: "retryCount r \<le> retryCount r' \<Longrightarrow> backoff_delay r \<le> backoff_delay r'"
proof -
  assume "retryCount r \<le> retryCount r'"
  then have "(2::nat) ^ (retryCount r + 1) \<le> 2 ^ (retryCount r' + 1)"
    by (intro power_increasing) simp_all
  then show ?thesis by (simp add: backoff_delay_def Let_def min_le_iff_disj)
qed

section \<open>Once the flag is set and nothing can clear it\<close>

lemma stuck_step:
  assumes "stuck s"
  shows "stuck (step e s) \<and> fetched (step e s) = fetched s \<and> notified (step e s) = notified s
     \<and> succeeded (step e s) = succeeded s \<and> failed (step e s) = failed s"
proof (cases e)
  case Storage_done
  show ?thesis
  proof (cases "opq s")
    case Nil
    with Storage_done assms show ?thesis by (simp add: step_def)
  next
    case (Cons t rest)
    with assms obtain p where "t = AR_update p"
      by (cases t) (auto simp: stuck_def free_def holders_def)
    with Cons Storage_done assms show ?thesis
      by (simp add: stuck_def free_def holders_def step_def storage_resolved_def
            addRequest_updated_def processQueue_def)
  qed
next
  case (Storage_fail err)
  show ?thesis
  proof (cases "opq s")
    case Nil
    with Storage_fail assms show ?thesis by (simp add: step_def)
  next
    case (Cons t rest)
    with assms obtain p where "t = AR_update p"
      by (cases t) (auto simp: stuck_def free_def holders_def)
    with Cons Storage_fail assms show ?thesis
      by (simp add: stuck_def free_def holders_def step_def storage_rejected_def)
  qed
qed (use assms in \<open>simp_all add: stuck_def free_def holders_def step_def addRequest_def
       processQueue_def configure_def timer_fired_def\<close>)

lemma stuck_run:
  "stuck s \<Longrightarrow> stuck (run es s) \<and> fetched (run es s) = fetched s
     \<and> notified (run es s) = notified s
     \<and> succeeded (run es s) = succeeded s \<and> failed (run es s) = failed s"
proof (induction es arbitrary: s)
  case Nil
  then show ?case by simp
next
  case (Cons e es)
  from stuck_step[OF Cons.prems, of e] Cons.IH[of "step e s"]
  show ?case by simp
qed

section \<open>The invariant\<close>

lemma head_is_append [simp]: "head_is r q \<Longrightarrow> head_is r (q @ [p])"
  by (cases q) simp_all

lemma storage_ok_append [simp]: "storage_ok t q \<Longrightarrow> storage_ok t (q @ [p])"
  by (cases t) simp_all

lemma head_isD: "head_is r q \<Longrightarrow> \<exists>rest. q = r # rest"
  by (cases q) simp_all

lemma free_inv: "free s \<Longrightarrow> pass_inv s"
  by (simp add: pass_inv_def)

lemma inv_notify [simp]: "pass_inv (notifyListeners s) = pass_inv s"
  by (simp add: inv_defs)

lemma free_notify [simp]: "free (notifyListeners s) = free s"
  by (simp add: inv_defs)

lemma free_store [simp]: "free (s\<lparr>store := q\<rparr>) = free s"
  by (simp add: inv_defs)

lemma inv_processQueue: "pass_inv s \<Longrightarrow> pass_inv (processQueue s)"
  by (auto simp: inv_defs processQueue_def Let_def)

lemma free_outer_catch: "free s \<Longrightarrow> pass_inv (processQueue_outer_catch s)"
  by (simp add: processQueue_outer_catch_def inv_defs)

lemma free_catch:
  "free s \<Longrightarrow> isSyncing s \<Longrightarrow> head_is cur (store s) \<Longrightarrow> pass_inv (processQueue_catch e cur s)"
proof (cases e)
  case (Error m)
  then show "free s \<Longrightarrow> isSyncing s \<Longrightarrow> head_is cur (store s) \<Longrightarrow> ?thesis"
    by (simp add: processQueue_catch_def handleRetry_def inv_defs Let_def)
next
  case Non_error
  then show "free s \<Longrightarrow> isSyncing s \<Longrightarrow> head_is cur (store s) \<Longrightarrow> ?thesis"
    by (simp add: processQueue_catch_def free_outer_catch)
qed

lemma free_send:
  "free s \<Longrightarrow> isSyncing s \<Longrightarrow> head_is cur (store s) \<Longrightarrow> pass_inv (processQueue_send cur d s)"
  by (simp add: processQueue_send_def inv_defs)

lemma free_got: "free s \<Longrightarrow> isSyncing s \<Longrightarrow> pass_inv (processQueue_got (store s) s)"
  by (cases "store s") (auto simp: processQueue_got_def processQueue_send_def inv_defs)

lemma free_headers:
  "free s \<Longrightarrow> isSyncing s \<Longrightarrow> head_is cur (store s) \<Longrightarrow> pass_inv (processQueue_headers cur r s)"
  by (cases r) (simp_all add: processQueue_headers_def free_catch free_send)

lemma free_response:
  "free s \<Longrightarrow> isSyncing s \<Longrightarrow> head_is cur (store s) \<Longrightarrow> pass_inv (processQueue_response cur r s)"
proof (cases r)
  case (Inl e)
  then show "free s \<Longrightarrow> isSyncing s \<Longrightarrow> head_is cur (store s) \<Longrightarrow> ?thesis"
    by (simp add: processQueue_response_def free_catch)
next
  case (Inr resp)
  then show "free s \<Longrightarrow> isSyncing s \<Longrightarrow> head_is cur (store s) \<Longrightarrow> ?thesis"
    by (cases "json_m resp")
       (simp_all add: processQueue_response_def free_catch, simp_all add: inv_defs)
qed

lemma free_success:
  "free s \<Longrightarrow> isSyncing s \<Longrightarrow> head_is cur (store s) \<Longrightarrow> pass_inv (processQueue_success cur d s)"
  by (simp add: processQueue_success_def inv_defs Let_def)

lemma free_popped: "free s \<Longrightarrow> pass_inv (processQueue_popped s)"
  by (simp add: processQueue_popped_def inv_processQueue free_inv)

lemma free_retry_updated: "free s \<Longrightarrow> pass_inv (handleRetry_updated r s)"
  by (simp add: handleRetry_updated_def inv_defs Let_def)

text \<open>Taking the oldest storage operation, or a waiting call, out of the state.\<close>

lemma inv_take_AR:
  "pass_inv s \<Longrightarrow> opq s = AR_update p # rest \<Longrightarrow>
     pass_inv (s\<lparr>opq := rest, store := store s @ [p]\<rparr>)"
  by (auto simp: inv_defs split: list.splits option.splits)

lemma inv_drop_AR:
  "pass_inv s \<Longrightarrow> opq s = AR_update p # rest \<Longrightarrow> pass_inv (s\<lparr>opq := rest\<rparr>)"
  by (auto simp: inv_defs split: list.splits option.splits)

lemma inv_take_holder:
  "pass_inv s \<Longrightarrow> opq s = t # rest \<Longrightarrow> \<not> is_AR t \<Longrightarrow>
     free (s\<lparr>opq := rest\<rparr>) \<and> isSyncing s \<and> storage_ok t (store s)"
  by (auto simp: inv_defs split: list.splits option.splits)

lemma inv_take_waiting:
  "pass_inv s \<Longrightarrow> i < length (waiting s) \<Longrightarrow>
     free (s\<lparr>waiting := remove_nth i (waiting s)\<rparr>) \<and> isSyncing s \<and>
     head_is (env_req (waiting s ! i)) (store s)"
  by (auto simp: inv_defs remove_nth_def split: list.splits option.splits)

lemma inv_storage_done: "pass_inv s \<Longrightarrow> pass_inv (step Storage_done s)"
proof (cases "opq s")
  case Nil
  then show "pass_inv s \<Longrightarrow> ?thesis" by (simp add: step_def)
next
  case (Cons t rest)
  assume inv: "pass_inv s"
  show ?thesis
  proof (cases t)
    case (AR_update p)
    with inv_take_AR[OF inv, of p rest] Cons show ?thesis
      by (simp add: step_def storage_resolved_def addRequest_updated_def inv_processQueue)
  next
    case PQ_get
    with inv_take_holder[OF inv Cons] Cons free_got[of "s\<lparr>opq := rest\<rparr>"] show ?thesis
      by (simp add: step_def storage_resolved_def)
  next
    case (PQ_pop_ok r)
    with inv_take_holder[OF inv Cons] Cons
      free_popped[of "s\<lparr>opq := rest, store := drop 1 (store s)\<rparr>"]
    show ?thesis by (simp add: step_def storage_resolved_def)
  next
    case (PQ_pop_4xx r)
    with inv_take_holder[OF inv Cons] Cons
      free_popped[of "s\<lparr>opq := rest, store := drop 1 (store s)\<rparr>"]
    show ?thesis by (simp add: step_def storage_resolved_def)
  next
    case (HR_update r)
    with inv_take_holder[OF inv Cons] Cons
      free_retry_updated[of "s\<lparr>opq := rest, store := retry_update r (store s)\<rparr>" r]
    show ?thesis by (simp add: step_def storage_resolved_def)
  qed
qed

lemma inv_storage_fail: "pass_inv s \<Longrightarrow> pass_inv (step (Storage_fail err) s)"
proof (cases "opq s")
  case Nil
  then show "pass_inv s \<Longrightarrow> ?thesis" by (simp add: step_def)
next
  case (Cons t rest)
  assume inv: "pass_inv s"
  show ?thesis
  proof (cases t)
    case (AR_update p)
    with inv_drop_AR[OF inv, of p rest] Cons show ?thesis
      by (simp add: step_def storage_rejected_def)
  next
    case PQ_get
    with inv_take_holder[OF inv Cons] Cons show ?thesis
      by (simp add: step_def storage_rejected_def free_outer_catch)
  next
    case (PQ_pop_ok r)
    with inv_take_holder[OF inv Cons] Cons show ?thesis
      by (simp add: step_def storage_rejected_def free_catch)
  next
    case (PQ_pop_4xx r)
    with inv_take_holder[OF inv Cons] Cons show ?thesis
      by (simp add: step_def storage_rejected_def free_outer_catch)
  next
    case (HR_update r)
    with inv_take_holder[OF inv Cons] Cons show ?thesis
      by (simp add: step_def storage_rejected_def free_inv)
  qed
qed

lemma inv_env_done:
  assumes "pass_inv s"
  shows "pass_inv (step (Headers_done i r) s)" "pass_inv (step (Fetch_done i r') s)"
    "pass_inv (step (Json_done i) s)"
  using assms inv_take_waiting[OF assms, of i]
  by (auto simp: step_def free_headers free_response free_success split: env_task.splits)

lemma inv_step: "pass_inv s \<Longrightarrow> pass_inv (step e s)"
proof (cases e)
  case (Add_request req uuid now)
  then show "pass_inv s \<Longrightarrow> ?thesis" by (auto simp: step_def addRequest_def inv_defs)
next
  case Window_online
  then show "pass_inv s \<Longrightarrow> ?thesis" by (simp add: step_def inv_processQueue)
next
  case (Set_onLine b)
  then show "pass_inv s \<Longrightarrow> ?thesis" by (simp add: step_def inv_defs)
next
  case (Configure c)
  then show "pass_inv s \<Longrightarrow> ?thesis" by (simp add: step_def configure_def inv_defs)
next
  case (Timer_fire i)
  assume inv: "pass_inv s"
  have "pass_inv (s\<lparr>timers := remove_nth i (timers s)\<rparr>)" using inv by (simp add: inv_defs)
  with Timer_fire inv show ?thesis by (simp add: step_def timer_fired_def inv_processQueue)
qed (simp_all add: inv_storage_done inv_storage_fail inv_env_done)

lemma inv_init: "pass_inv (init q b)"
  by (simp add: inv_defs init_def)

lemma inv_run: "pass_inv s \<Longrightarrow> pass_inv (run es s)"
  by (induction es arbitrary: s) (simp_all add: inv_step)

section \<open>Which request a step submits, and how a step changes the queue\<close>

lemma submits_storage_done: "submits_head s (step Storage_done s)"
proof (cases "opq s")
  case Nil
  then show ?thesis by (simp add: step_def submits_head_def)
next
  case (Cons t rest)
  then show ?thesis
    by (cases t; cases "store s")
       (auto simp: step_def submits_head_def storage_resolved_def addRequest_updated_def
          processQueue_got_def)
qed

lemma submits_storage_fail: "submits_head s (step (Storage_fail err) s)"
proof (cases "opq s")
  case Nil
  then show ?thesis by (simp add: step_def submits_head_def)
next
  case (Cons t rest)
  then show ?thesis
    by (cases t) (simp_all add: step_def submits_head_def storage_rejected_def)
qed

lemma submits_headers:
  assumes "pass_inv s"
  shows "submits_head s (step (Headers_done i r) s)"
proof (cases "i < length (waiting s)")
  case False
  then show ?thesis by (simp add: step_def submits_head_def)
next
  case True
  from inv_take_waiting[OF assms True]
  have h: "head_is (env_req (waiting s ! i)) (store s)" by simp
  show ?thesis
  proof (cases "waiting s ! i")
    case (PQ_headers cur)
    with h obtain rest where "store s = cur # rest" by (auto dest: head_isD)
    with PQ_headers True show ?thesis
      by (cases r) (auto simp: step_def submits_head_def processQueue_headers_def)
  qed (use True in \<open>simp_all add: step_def submits_head_def\<close>)
qed

lemma submits_step: "pass_inv s \<Longrightarrow> submits_head s (step e s)"
proof (cases e)
  case (Headers_done i r)
  then show "pass_inv s \<Longrightarrow> ?thesis" by (simp add: submits_headers)
next
  case (Fetch_done i r)
  then show ?thesis by (simp add: step_def submits_head_def split: env_task.split)
next
  case (Json_done i)
  then show ?thesis by (simp add: step_def submits_head_def split: env_task.split)
qed (simp_all add: submits_storage_done submits_storage_fail,
     simp_all add: step_def submits_head_def addRequest_def configure_def timer_fired_def)

lemma queue_step_step: "queue_step (store s) (store (step e s))"
proof (cases e)
  case Storage_done
  show ?thesis
  proof (cases "opq s")
    case Nil
    with Storage_done show ?thesis by (simp add: step_def queue_step_def)
  next
    case (Cons t rest)
    with Storage_done show ?thesis
      by (cases t; cases "store s")
         (simp_all add: step_def queue_step_def storage_resolved_def addRequest_updated_def
            processQueue_got_def retry_update_def)
  qed
next
  case (Storage_fail err)
  then show ?thesis
    by (cases "opq s")
       (simp_all add: step_def queue_step_def storage_rejected_def split: storage_task.split)
next
  case (Headers_done i r)
  then show ?thesis
    by (cases r)
       (simp_all add: step_def queue_step_def processQueue_headers_def split: env_task.split)
qed (simp_all add: step_def queue_step_def addRequest_def configure_def timer_fired_def
       split: env_task.split)

lemma origin_storage_done: "fetch_origin Storage_done s"
proof (cases "opq s")
  case Nil
  then show ?thesis by (simp add: step_def fetch_origin_def)
next
  case (Cons t rest)
  then show ?thesis
    by (cases t; cases "store s")
       (auto simp: step_def fetch_origin_def storage_resolved_def addRequest_updated_def
          processQueue_got_def)
qed

lemma origin_storage_fail: "fetch_origin (Storage_fail err) s"
proof (cases "opq s")
  case Nil
  then show ?thesis by (simp add: step_def fetch_origin_def)
next
  case (Cons t rest)
  then show ?thesis
    by (cases t) (simp_all add: step_def fetch_origin_def storage_rejected_def)
qed

lemma origin_headers: "fetch_origin (Headers_done i r) s"
proof (cases "i < length (waiting s)")
  case False
  then show ?thesis by (simp add: step_def fetch_origin_def)
next
  case True
  show ?thesis
  proof (cases "waiting s ! i")
    case (PQ_headers cur)
    with True show ?thesis
      by (cases r) (auto simp: step_def fetch_origin_def processQueue_headers_def)
  qed (use True in \<open>simp_all add: step_def fetch_origin_def\<close>)
qed

lemma origin_step: "fetch_origin e s"
proof (cases e)
  case (Fetch_done i r)
  then show ?thesis by (simp add: step_def fetch_origin_def split: env_task.split)
next
  case (Json_done i)
  then show ?thesis by (simp add: step_def fetch_origin_def split: env_task.split)
qed (simp_all add: origin_storage_done origin_storage_fail origin_headers,
     simp_all add: step_def fetch_origin_def addRequest_def configure_def timer_fired_def)

lemma got_awaits_prepareHeaders:
  "opq s = PQ_get # rest \<Longrightarrow> store s = currentReq # queue \<Longrightarrow> prepareHeaders (config s) \<Longrightarrow>
     fetched (step Storage_done s) = fetched s \<and>
     waiting (step Storage_done s) = waiting s @ [PQ_headers currentReq]"
  by (simp add: step_def storage_resolved_def processQueue_got_def)

lemma got_sends_without_prepareHeaders:
  "opq s = PQ_get # rest \<Longrightarrow> store s = currentReq # queue \<Longrightarrow> \<not> prepareHeaders (config s) \<Longrightarrow>
     fetched (step Storage_done s) = fetched s @ [fetch_of currentReq Map.empty]"
  by (simp add: step_def storage_resolved_def processQueue_got_def)

lemma headers_resolved_sends:
  "i < length (waiting s) \<Longrightarrow> waiting s ! i = PQ_headers currentReq \<Longrightarrow>
     fetched (step (Headers_done i (Inr dyn)) s) = fetched s @ [fetch_of currentReq dyn]"
  by (simp add: step_def processQueue_headers_def)

lemma merge_headers_lookup:
  "merge_headers static dynamicHeaders name =
     (case dynamicHeaders name of
        Some v \<Rightarrow> Some v
      | None \<Rightarrow>
          (case (case static of None \<Rightarrow> None | Some h \<Rightarrow> h name) of
             Some v \<Rightarrow> Some v
           | None \<Rightarrow> if name = ''Content-Type'' then Some ''application/json'' else None))"
  by (auto simp: merge_headers_def map_add_def split: option.splits)

section \<open>Enqueueing while offline\<close>

lemma pending_append: "pending (ts @ [AR_update p]) = pending ts @ [p]"
  by (induction ts rule: pending.induct) simp_all

lemma enqueue_calls_Cons: "enqueue_calls (e # es) = enqueue_calls [e] @ enqueue_calls es"
  by (cases e) simp_all

lemma offline_enqueue_step:
  assumes "\<not> onLine s" "list_all is_AR (opq s)" "enqueue_only e"
  shows "\<not> onLine (step e s) \<and> list_all is_AR (opq (step e s)) \<and>
         store (step e s) @ pending (opq (step e s)) =
           store s @ pending (opq s)
             @ map (\<lambda>(req, uuid, now). new_payload req uuid now) (enqueue_calls [e]) \<and>
         fetched (step e s) = fetched s"
proof (cases e)
  case (Add_request req uuid now)
  with assms show ?thesis by (simp add: step_def addRequest_def pending_append)
next
  case Storage_done
  show ?thesis
  proof (cases "opq s")
    case Nil
    with Storage_done assms show ?thesis by (simp add: step_def)
  next
    case (Cons t rest)
    with assms obtain p where "t = AR_update p" by (cases t) auto
    with Cons Storage_done assms show ?thesis
      by (simp add: step_def storage_resolved_def addRequest_updated_def)
  qed
qed (use assms in simp_all)

lemma offline_enqueue_run:
  assumes "\<not> onLine s" "list_all is_AR (opq s)" "list_all enqueue_only es"
  shows "list_all is_AR (opq (run es s)) \<and>
         store (run es s) @ pending (opq (run es s)) =
           store s @ pending (opq s)
             @ map (\<lambda>(req, uuid, now). new_payload req uuid now) (enqueue_calls es) \<and>
         fetched (run es s) = fetched s"
  using assms
proof (induction es arbitrary: s)
  case Nil
  then show ?case by simp
next
  case (Cons e es)
  from Cons.prems have e: "enqueue_only e" and es: "list_all enqueue_only es" by simp_all
  note st = offline_enqueue_step[OF Cons.prems(1,2) e]
  from st have a: "\<not> onLine (step e s)" and b: "list_all is_AR (opq (step e s))" by simp_all
  from Cons.IH[OF a b es] st show ?case
    by (simp add: enqueue_calls_Cons[of e es])
qed

section \<open>The states the concrete runs end in\<close>

lemmas scenario_defs = two_queued_def item1_def item2_def req1_def req2_def ok_response_def
  not_found_def no_status_def with_onError_def with_prepareHeaders_def

lemma two_queued_state:
  "run two_queued (init [] False) = (init [item1, item2] False)"
  by (simp add: scenario_defs run_defs init_def)

lemma first_succeeds_state:
  "run first_succeeds (init [] False) =
     \<lparr>store = [item2], isSyncing = True,
      config = \<lparr>prepareHeaders = False, onSuccess = False, onError = False, debug = False\<rparr>,
      onLine = True, opq = [], waiting = [], timers = [],
      notified = [True, True], fetched = [fetch_of item1 Map.empty], succeeded = [],
      failed = []\<rparr>"
  by (simp add: first_succeeds_def scenario_defs run_defs init_def)

lemma one_succeeds_state:
  "run one_succeeds (init [] True) =
     \<lparr>store = [], isSyncing = True,
      config = \<lparr>prepareHeaders = False, onSuccess = False, onError = False, debug = False\<rparr>,
      onLine = True, opq = [], waiting = [], timers = [],
      notified = [True, True], fetched = [fetch_of item1 Map.empty], succeeded = [],
      failed = []\<rparr>"
  by (simp add: one_succeeds_def scenario_defs run_defs init_def)

lemma first_rejected_state:
  "run first_rejected (init [] False) =
     \<lparr>store = [item2], isSyncing = True, config = with_onError,
      onLine = True, opq = [], waiting = [], timers = [],
      notified = [True, True], fetched = [fetch_of item1 Map.empty], succeeded = [],
      failed = [(Error ''Client Error 404: Not Found'', item1)]\<rparr>"
  by (simp add: first_rejected_def scenario_defs run_defs init_def client_error_def show_status_def
        show_text_def digits.simps digit_def isClientError_def)

lemma reading_queue_state:
  "run reading_queue (init [] True) =
     \<lparr>store = [item1], isSyncing = True, config = with_prepareHeaders,
      onLine = True, opq = [PQ_get], waiting = [], timers = [],
      notified = [True], fetched = [], succeeded = [], failed = []\<rparr>"
  by (simp add: reading_queue_def scenario_defs run_defs init_def)

lemma awaiting_headers_state:
  "run awaiting_headers (init [] True) =
     \<lparr>store = [item1], isSyncing = True, config = with_prepareHeaders,
      onLine = True, opq = [], waiting = [PQ_headers item1], timers = [],
      notified = [True], fetched = [], succeeded = [], failed = []\<rparr>"
  by (simp add: awaiting_headers_def scenario_defs run_defs init_def)

lemma awaiting_fetch_state:
  "run awaiting_fetch (init [] True) =
     \<lparr>store = [item1], isSyncing = True,
      config = \<lparr>prepareHeaders = False, onSuccess = False, onError = False, debug = False\<rparr>,
      onLine = True, opq = [], waiting = [PQ_fetch item1], timers = [],
      notified = [True], fetched = [fetch_of item1 Map.empty], succeeded = [], failed = []\<rparr>"
  by (simp add: awaiting_fetch_def scenario_defs run_defs init_def)

section \<open>The claims\<close>

text \<open>
  The theorems below are about one engine over its store (the module exports the
  single instance \<open>syncEngine\<close>), started by \<open>init\<close> and driven by any list of
  events.
\<close>

text \<open>
  C1 (draining continues after a success). The claim does not hold of the code.
  After a success the head is dropped and \<open>this.processQueue()\<close> is called while
  \<open>isSyncing\<close> is still \<open>true\<close>, so the guard returns at once. In the run
  \<open>first_succeeds\<close> two requests are queued offline and the first delivery succeeds:
  the queue ends as \<open>[item2]\<close>, one call of \<open>fetch\<close> was made, nothing is pending, and
  no later event of any kind leads to a second call.
\<close>

theorem drain_stops_after_first_success:
  "store (run first_succeeds (init [] False)) = [item2]
   \<and> fetched (run first_succeeds (init [] False)) = [fetch_of item1 Map.empty]
   \<and> isSyncing (run first_succeeds (init [] False))
   \<and> opq (run first_succeeds (init [] False)) = []
   \<and> waiting (run first_succeeds (init [] False)) = []
   \<and> timers (run first_succeeds (init [] False)) = []
   \<and> (\<forall>es. fetched (run es (run first_succeeds (init [] False))) = [fetch_of item1 Map.empty])"
proof -
  have "stuck (run first_succeeds (init [] False))"
    by (simp add: first_succeeds_state stuck_def free_def holders_def)
  from stuck_run[OF this] show ?thesis by (simp add: first_succeeds_state)
qed

text \<open>
  C2 (observers see \<open>false\<close> once a pass has ended). The claim does not hold of the
  code. In the run \<open>one_succeeds\<close> a pass delivers the only queued request: the
  listeners receive \<open>true\<close> at its start and \<open>true\<close> again from \<open>finally\<close>, the queue is
  empty and nothing is pending, yet \<open>isSyncing\<close> is \<open>true\<close> and stays so, and the
  listeners are never called again, whatever happens later.
\<close>

theorem flag_left_set_after_success:
  "notified (run one_succeeds (init [] True)) = [True, True]
   \<and> store (run one_succeeds (init [] True)) = []
   \<and> opq (run one_succeeds (init [] True)) = []
   \<and> waiting (run one_succeeds (init [] True)) = []
   \<and> timers (run one_succeeds (init [] True)) = []
   \<and> (\<forall>es. isSyncing (run es (run one_succeeds (init [] True)))
          \<and> notified (run es (run one_succeeds (init [] True))) = [True, True])"
proof -
  have "stuck (run one_succeeds (init [] True))"
    by (simp add: one_succeeds_state stuck_def free_def holders_def)
  from stuck_run[OF this] show ?thesis by (simp add: one_succeeds_state stuck_def)
qed

text \<open>
  C3 (enqueueing while offline). Let \<open>navigator.onLine\<close> be \<open>false\<close> and no storage
  operation be pending. After any run of \<open>addRequest\<close> calls and completions of their
  storage operations, interleaved in any way, at whose end no operation is pending,
  the persisted queue is the old queue followed by one entry per call, in the order
  of the calls; each entry has the call's \<open>url\<close>, \<open>method\<close>, \<open>body\<close> and \<open>headers\<close>, the
  \<open>id\<close> and \<open>timestamp\<close> obtained during the call, and \<open>retryCount = 0\<close>. No call of
  \<open>fetch\<close> is made.
\<close>

theorem offline_enqueue_appends_in_order:
  assumes "\<not> onLine s" and "opq s = []" and "list_all enqueue_only es"
    and "opq (run es s) = []"
  shows "store (run es s) =
           store s @ map (\<lambda>(req, uuid, now).
                            \<lparr>url = url req, http_method = http_method req, body = body req,
                             headers = headers req, req_id = uuid, timestamp = now,
                             retryCount = 0\<rparr>) (enqueue_calls es)
         \<and> fetched (run es s) = fetched s"
proof -
  from assms(2) have "list_all is_AR (opq s)" by simp
  from offline_enqueue_run[OF assms(1) this assms(3)] assms(2,4)
  show ?thesis by (simp add: new_payload_def)
qed

theorem offline_enqueue_appends_in_order_witness:
  "\<not> onLine (init [] False) \<and> opq (init [] False) = [] \<and> list_all enqueue_only two_queued
   \<and> opq (run two_queued (init [] False)) = []
   \<and> store (run two_queued (init [] False)) = [item1, item2]
   \<and> fetched (run two_queued (init [] False)) = []"
proof -
  have a: "\<not> onLine (init [] False)" and b: "opq (init [] False) = []"
    by (simp_all add: init_def)
  have c: "list_all enqueue_only two_queued" by (simp add: two_queued_def)
  have d: "opq (run two_queued (init [] False)) = []"
    unfolding two_queued_state by (simp add: init_def)
  from offline_enqueue_appends_in_order[OF a b c d] a b c d show ?thesis
    unfolding two_queued_state by (simp add: two_queued_def init_def)
qed

text \<open>
  C4 (backoff delay). For a request whose \<open>retryCount\<close> was \<open>n\<close> when the pass read
  it, the delay is \<open>min (1000 * 2 ^ (n + 1)) 30000\<close>: 2000 for \<open>n = 0\<close>, never above
  30000, and not smaller for a larger \<open>n\<close>. This is the delay given to \<open>setTimeout\<close>
  when the update of \<open>handleRetry\<close> completes.
\<close>

theorem backoff_delay_post_increment:
  "backoff_delay req = min (1000 * 2 ^ (retryCount req + 1)) 30000
   \<and> (retryCount req = 0 \<longrightarrow> backoff_delay req = 2000)
   \<and> backoff_delay req \<le> 30000
   \<and> (\<forall>req'. retryCount req \<le> retryCount req' \<longrightarrow> backoff_delay req \<le> backoff_delay req')
   \<and> (\<forall>s rest. opq s = HR_update req # rest \<longrightarrow>
        timers (step Storage_done s) = timers s @ [min (1000 * 2 ^ (retryCount req + 1)) 30000])"
proof -
  have "backoff_delay req = min (1000 * 2 ^ (retryCount req + 1)) 30000"
    by (simp add: backoff_delay_def Let_def)
  moreover have "retryCount req = 0 \<longrightarrow> backoff_delay req = 2000"
    by (simp add: backoff_delay_def Let_def)
  moreover have "backoff_delay req \<le> 30000"
    by (simp add: backoff_delay_def Let_def)
  ultimately show ?thesis
    using backoff_mono[of req] by (simp add: retry_completes)
qed

theorem backoff_delay_post_increment_witness:
  "retryCount item1 = 0 \<and> backoff_delay item1 = 2000
   \<and> backoff_delay (item1\<lparr>retryCount := 3\<rparr>) = 16000
   \<and> backoff_delay (item1\<lparr>retryCount := 4\<rparr>) = 30000
   \<and> backoff_delay item1 \<le> backoff_delay (item1\<lparr>retryCount := 4\<rparr>)
   \<and> timers (step Storage_done ((init [item1] True)\<lparr>opq := [HR_update item1]\<rparr>)) = [2000]"
  using backoff_delay_post_increment[of item1] backoff_delay_post_increment[of "item1\<lparr>retryCount := 3\<rparr>"]
    backoff_delay_post_increment[of "item1\<lparr>retryCount := 4\<rparr>"]
  by (simp add: item1_def new_payload_def init_def)

text \<open>
  C5 (a 4xx response drops the item and the next one is attempted at once). The
  claim does not hold of the code. In the run \<open>first_rejected\<close> two requests are
  queued and the first is answered with 404: \<open>onError\<close> is called once and the item is
  dropped, but the call \<open>this.processQueue()\<close> that follows finds \<open>isSyncing\<close> set and
  returns, so the second request is not sent, then or after any later event.
\<close>

theorem client_error_does_not_advance:
  "failed (run first_rejected (init [] False)) = [(Error ''Client Error 404: Not Found'', item1)]
   \<and> store (run first_rejected (init [] False)) = [item2]
   \<and> fetched (run first_rejected (init [] False)) = [fetch_of item1 Map.empty]
   \<and> opq (run first_rejected (init [] False)) = []
   \<and> waiting (run first_rejected (init [] False)) = []
   \<and> timers (run first_rejected (init [] False)) = []
   \<and> (\<forall>es. fetched (run es (run first_rejected (init [] False))) = [fetch_of item1 Map.empty])"
proof -
  have "stuck (run first_rejected (init [] False))"
    by (simp add: first_rejected_state stuck_def free_def holders_def)
  from stuck_run[OF this] show ?thesis by (simp add: first_rejected_state)
qed

text \<open>
  C6 (the increment written by \<open>handleRetry\<close>). The updater increments \<open>retryCount\<close>
  of the stored head when its \<open>id\<close> is the \<open>id\<close> of the attempted request; on an empty
  queue and on a head with another \<open>id\<close> it returns the queue as it is; the items
  behind the head and all \<open>id\<close>s are never changed. This updater is what the
  completed storage operation of \<open>handleRetry\<close> applies to the store.
\<close>

theorem retry_update_targets_attempted_item:
  "(\<forall>head rest. old = head # rest \<and> req_id head = req_id req \<longrightarrow>
       retry_update req old = head\<lparr>retryCount := retryCount head + 1\<rparr> # rest)
   \<and> (old = [] \<or> req_id (hd old) \<noteq> req_id req \<longrightarrow> retry_update req old = old)
   \<and> drop 1 (retry_update req old) = drop 1 old
   \<and> map req_id (retry_update req old) = map req_id old
   \<and> (\<forall>s rest. opq s = HR_update req # rest \<longrightarrow>
         store (step Storage_done s) = retry_update req (store s))"
  by (cases old) (simp_all add: retry_update_def retry_completes)

theorem retry_update_targets_attempted_item_witness:
  "retry_update item1 [item1, item2] = [item1\<lparr>retryCount := 1\<rparr>, item2]
   \<and> req_id (hd [item2]) \<noteq> req_id item1 \<and> retry_update item1 [item2] = [item2]
   \<and> retry_update item1 [] = []
   \<and> store (step Storage_done ((init [item2] True)\<lparr>opq := [HR_update item1]\<rparr>)) = [item2]"
  using retry_update_targets_attempted_item[of "[item1, item2]" item1]
    retry_update_targets_attempted_item[of "[item2]" item1]
    retry_update_targets_attempted_item[of "[]" item1]
  by (simp add: item1_def item2_def new_payload_def init_def)

text \<open>
  C7 (headers of a delivery). The headers passed to \<open>fetch\<close> are looked up first in
  the dynamic headers, then in the request's own headers, then in the default
  \<open>Content-Type: application/json\<close>. With \<open>prepareHeaders\<close> configured, the step that
  has read the queue makes no call of \<open>fetch\<close> and waits for \<open>prepareHeaders()\<close>; the
  call of \<open>fetch\<close> is made in the step in which it resolves, with the headers it resolved
  to. With none configured, the dynamic headers are empty. No step makes a call of
  \<open>fetch\<close> in any other way.
\<close>

theorem fetch_headers_merge_order:
  "merge_headers static dynamicHeaders name =
     (case dynamicHeaders name of
        Some v \<Rightarrow> Some v
      | None \<Rightarrow>
          (case (case static of None \<Rightarrow> None | Some h \<Rightarrow> h name) of
             Some v \<Rightarrow> Some v
           | None \<Rightarrow> if name = ''Content-Type'' then Some ''application/json'' else None))
   \<and> (\<forall>s i currentReq.
         i < length (waiting s) \<and> waiting s ! i = PQ_headers currentReq \<longrightarrow>
         fetched (step (Headers_done i (Inr dynamicHeaders)) s) =
           fetched s @ [\<lparr>f_url = url currentReq, f_method = http_method currentReq,
                         f_headers = merge_headers (headers currentReq) dynamicHeaders,
                         f_body = body currentReq\<rparr>])
   \<and> (\<forall>s rest currentReq queue.
         opq s = PQ_get # rest \<and> store s = currentReq # queue \<and> \<not> prepareHeaders (config s) \<longrightarrow>
         fetched (step Storage_done s) =
           fetched s @ [\<lparr>f_url = url currentReq, f_method = http_method currentReq,
                         f_headers = merge_headers (headers currentReq) Map.empty,
                         f_body = body currentReq\<rparr>])
   \<and> (\<forall>s rest currentReq queue.
         opq s = PQ_get # rest \<and> store s = currentReq # queue \<and> prepareHeaders (config s) \<longrightarrow>
         fetched (step Storage_done s) = fetched s \<and>
         waiting (step Storage_done s) = waiting s @ [PQ_headers currentReq])
   \<and> (\<forall>e s.
         fetched (step e s) = fetched s
         \<or> (\<exists>i currentReq dyn.
               e = Headers_done i (Inr dyn) \<and> i < length (waiting s) \<and>
               waiting s ! i = PQ_headers currentReq \<and>
               fetched (step e s) =
                 fetched s @ [\<lparr>f_url = url currentReq, f_method = http_method currentReq,
                               f_headers = merge_headers (headers currentReq) dyn,
                               f_body = body currentReq\<rparr>])
         \<or> (\<exists>currentReq queue rest.
               e = Storage_done \<and> opq s = PQ_get # rest \<and> store s = currentReq # queue \<and>
               \<not> prepareHeaders (config s) \<and>
               fetched (step e s) =
                 fetched s @ [\<lparr>f_url = url currentReq, f_method = http_method currentReq,
                               f_headers = merge_headers (headers currentReq) Map.empty,
                               f_body = body currentReq\<rparr>]))"
proof (intro conjI allI impI)
  show "merge_headers static dynamicHeaders name =
     (case dynamicHeaders name of
        Some v \<Rightarrow> Some v
      | None \<Rightarrow>
          (case (case static of None \<Rightarrow> None | Some h \<Rightarrow> h name) of
             Some v \<Rightarrow> Some v
           | None \<Rightarrow> if name = ''Content-Type'' then Some ''application/json'' else None))"
    by (rule merge_headers_lookup)
next
  fix s :: engine and i :: nat and currentReq :: RequestPayload
  assume "i < length (waiting s) \<and> waiting s ! i = PQ_headers currentReq"
  then show "fetched (step (Headers_done i (Inr dynamicHeaders)) s) =
           fetched s @ [\<lparr>f_url = url currentReq, f_method = http_method currentReq,
                         f_headers = merge_headers (headers currentReq) dynamicHeaders,
                         f_body = body currentReq\<rparr>]"
    using headers_resolved_sends[of i s currentReq dynamicHeaders] by (simp add: fetch_of_def)
next
  fix s :: engine and rest :: "storage_task list" and currentReq :: RequestPayload
    and queue :: "RequestPayload list"
  assume "opq s = PQ_get # rest \<and> store s = currentReq # queue \<and> \<not> prepareHeaders (config s)"
  then show "fetched (step Storage_done s) =
           fetched s @ [\<lparr>f_url = url currentReq, f_method = http_method currentReq,
                         f_headers = merge_headers (headers currentReq) Map.empty,
                         f_body = body currentReq\<rparr>]"
    using got_sends_without_prepareHeaders[of s rest currentReq queue] by (simp add: fetch_of_def)
next
  fix s :: engine and rest :: "storage_task list" and currentReq :: RequestPayload
    and queue :: "RequestPayload list"
  assume a: "opq s = PQ_get # rest \<and> store s = currentReq # queue \<and> prepareHeaders (config s)"
  then show "fetched (step Storage_done s) = fetched s"
    using got_awaits_prepareHeaders[of s rest currentReq queue] by simp
  from a show "waiting (step Storage_done s) = waiting s @ [PQ_headers currentReq]"
    using got_awaits_prepareHeaders[of s rest currentReq queue] by simp
next
  fix e :: event and s :: engine
  show "fetched (step e s) = fetched s
         \<or> (\<exists>i currentReq dyn.
               e = Headers_done i (Inr dyn) \<and> i < length (waiting s) \<and>
               waiting s ! i = PQ_headers currentReq \<and>
               fetched (step e s) =
                 fetched s @ [\<lparr>f_url = url currentReq, f_method = http_method currentReq,
                               f_headers = merge_headers (headers currentReq) dyn,
                               f_body = body currentReq\<rparr>])
         \<or> (\<exists>currentReq queue rest.
               e = Storage_done \<and> opq s = PQ_get # rest \<and> store s = currentReq # queue \<and>
               \<not> prepareHeaders (config s) \<and>
               fetched (step e s) =
                 fetched s @ [\<lparr>f_url = url currentReq, f_method = http_method currentReq,
                               f_headers = merge_headers (headers currentReq) Map.empty,
                               f_body = body currentReq\<rparr>])"
    using origin_step[of e s] unfolding fetch_origin_def fetch_of_def by blast
qed

theorem fetch_headers_merge_order_witness:
  "merge_headers (Some [''Content-Type'' \<mapsto> ''text/plain'', ''X-Token'' \<mapsto> ''static''])
      [''X-Token'' \<mapsto> ''fresh''] ''X-Token'' = Some ''fresh''
   \<and> merge_headers (Some [''Content-Type'' \<mapsto> ''text/plain'', ''X-Token'' \<mapsto> ''static''])
      [''X-Token'' \<mapsto> ''fresh''] ''Content-Type'' = Some ''text/plain''
   \<and> merge_headers None [''X-Token'' \<mapsto> ''fresh''] ''Content-Type'' = Some ''application/json''
   \<and> opq (run reading_queue (init [] True)) = [PQ_get]
   \<and> store (run reading_queue (init [] True)) = [item1]
   \<and> prepareHeaders (config (run reading_queue (init [] True)))
   \<and> fetched (step Storage_done (run reading_queue (init [] True))) = []
   \<and> waiting (step Storage_done (run reading_queue (init [] True))) = [PQ_headers item1]
   \<and> map (\<lambda>c. (f_url c, f_headers c ''X-Token'', f_headers c ''Content-Type''))
        (fetched (step (Headers_done 0 (Inr [''X-Token'' \<mapsto> ''fresh'']))
                   (step Storage_done (run reading_queue (init [] True)))))
       = [(''/api/1'', Some ''fresh'', Some ''application/json'')]"
proof -
  let ?static = "Some [''Content-Type'' \<mapsto> ''text/plain'', ''X-Token'' \<mapsto> ''static'']"
  let ?dyn = "[''X-Token'' \<mapsto> ''fresh'']"
  let ?s0 = "run reading_queue (init [] True)"
  let ?s1 = "step Storage_done ?s0"
  have m1: "merge_headers ?static ?dyn ''X-Token'' = Some ''fresh''"
    using fetch_headers_merge_order[of ?static ?dyn "''X-Token''"] by simp
  have m2: "merge_headers ?static ?dyn ''Content-Type'' = Some ''text/plain''"
    using fetch_headers_merge_order[of ?static ?dyn "''Content-Type''"] by simp
  have m3: "merge_headers None ?dyn ''Content-Type'' = Some ''application/json''"
    using fetch_headers_merge_order[of None ?dyn "''Content-Type''"] by simp
  have m4: "merge_headers None ?dyn ''X-Token'' = Some ''fresh''"
    using fetch_headers_merge_order[of None ?dyn "''X-Token''"] by simp
  note th = fetch_headers_merge_order[of None ?dyn "''X-Token''"]
  have a: "opq ?s0 = [PQ_get]" and b: "store ?s0 = [item1]"
    and c: "prepareHeaders (config ?s0)" and d: "fetched ?s0 = []" and e: "waiting ?s0 = []"
    unfolding reading_queue_state by (simp_all add: with_prepareHeaders_def)
  from th have "\<forall>s rest currentReq queue.
         opq s = PQ_get # rest \<and> store s = currentReq # queue \<and> prepareHeaders (config s) \<longrightarrow>
         fetched (step Storage_done s) = fetched s \<and>
         waiting (step Storage_done s) = waiting s @ [PQ_headers currentReq]"
    by (elim conjE) assumption
  with a b c d e have f: "fetched ?s1 = []" and w: "waiting ?s1 = [PQ_headers item1]"
    by simp_all
  from th have "\<forall>s i currentReq.
         i < length (waiting s) \<and> waiting s ! i = PQ_headers currentReq \<longrightarrow>
         fetched (step (Headers_done i (Inr ?dyn)) s) =
           fetched s @ [\<lparr>f_url = url currentReq, f_method = http_method currentReq,
                         f_headers = merge_headers (headers currentReq) ?dyn,
                         f_body = body currentReq\<rparr>]"
    by (elim conjE) assumption
  with w f have "fetched (step (Headers_done 0 (Inr ?dyn)) ?s1) =
      [\<lparr>f_url = url item1, f_method = http_method item1,
        f_headers = merge_headers (headers item1) ?dyn, f_body = body item1\<rparr>]"
    by simp
  moreover have "url item1 = ''/api/1''" and "headers item1 = None"
    by (simp_all add: item1_def req1_def new_payload_def)
  ultimately have g: "map (\<lambda>c. (f_url c, f_headers c ''X-Token'', f_headers c ''Content-Type''))
        (fetched (step (Headers_done 0 (Inr ?dyn)) ?s1))
       = [(''/api/1'', Some ''fresh'', Some ''application/json'')]"
    using m3 m4 by simp
  from m1 m2 m3 a b c f w g show ?thesis by simp
qed

text \<open>
  C8 (a failure of \<open>prepareHeaders\<close> is retried). The claim does not hold of the
  code. The inner \<open>catch\<close> takes any error whose message contains \<open>Client Error\<close> for
  the one thrown on a 4xx response. In the first run \<open>prepareHeaders\<close> rejects with
  such a message before any call of \<open>fetch\<close>: \<open>onError\<close> is called, the item is
  dropped, no retry is scheduled, and the flag stays set. In the second run
  \<open>prepareHeaders\<close> rejects with a value that has no message: the \<open>catch\<close> block itself
  throws, the outer \<open>catch\<close> clears the flag, and no retry is scheduled.
\<close>

theorem prepareHeaders_client_error_message_drops:
  "waiting (run awaiting_headers (init [] True)) = [PQ_headers item1]
   \<and> store (run awaiting_headers (init [] True)) = [item1]
   \<and> failed (run [Headers_done 0 (Inl (Error ''Client Error 401: token refresh rejected'')),
                  Storage_done] (run awaiting_headers (init [] True)))
       = [(Error ''Client Error 401: token refresh rejected'', item1)]
   \<and> store (run [Headers_done 0 (Inl (Error ''Client Error 401: token refresh rejected'')),
                 Storage_done] (run awaiting_headers (init [] True))) = []
   \<and> timers (run [Headers_done 0 (Inl (Error ''Client Error 401: token refresh rejected'')),
                  Storage_done] (run awaiting_headers (init [] True))) = []
   \<and> fetched (run [Headers_done 0 (Inl (Error ''Client Error 401: token refresh rejected'')),
                  Storage_done] (run awaiting_headers (init [] True))) = []
   \<and> isSyncing (run [Headers_done 0 (Inl (Error ''Client Error 401: token refresh rejected'')),
                  Storage_done] (run awaiting_headers (init [] True)))
   \<and> store (run [Headers_done 0 (Inl Non_error)] (run awaiting_headers (init [] True)))
       = [item1]
   \<and> timers (run [Headers_done 0 (Inl Non_error)] (run awaiting_headers (init [] True))) = []
   \<and> opq (run [Headers_done 0 (Inl Non_error)] (run awaiting_headers (init [] True))) = []
   \<and> waiting (run [Headers_done 0 (Inl Non_error)] (run awaiting_headers (init [] True))) = []"
  unfolding awaiting_headers_state
  by (simp add: run_defs with_prepareHeaders_def isClientError_def)

text \<open>
  Where the message of the rejection does not contain \<open>Client Error\<close>, the code does
  retry: the step leaves the queue and the calls of \<open>onError\<close> and of \<open>fetch\<close> as they
  were and issues the update of \<open>handleRetry\<close> for the same request; when that update
  completes, a timer with the backoff delay is set, the queue holds the same items,
  and \<open>onError\<close> has still not been called.
\<close>

theorem prepareHeaders_failure_is_retried:
  assumes "i < length (waiting s)" and "waiting s ! i = PQ_headers currentReq"
    and "\<not> isClientError message"
  shows "(let s' = step (Headers_done i (Inl (Error message))) s in
            store s' = store s \<and> failed s' = failed s \<and> fetched s' = fetched s \<and>
            timers s' = timers s \<and> opq s' = opq s @ [HR_update currentReq])
         \<and> (\<forall>s1 rest. opq s1 = HR_update currentReq # rest \<longrightarrow>
              (let s2 = step Storage_done s1 in
                 timers s2 = timers s1 @ [backoff_delay currentReq] \<and>
                 map req_id (store s2) = map req_id (store s1) \<and>
                 failed s2 = failed s1))"
proof -
  from assms have "step (Headers_done i (Inl (Error message))) s =
      notifyListeners
        (s\<lparr>waiting := remove_nth i (waiting s), opq := opq s @ [HR_update currentReq]\<rparr>)"
    by (simp add: step_def processQueue_headers_def catch_retry)
  then show ?thesis by (simp add: Let_def retry_completes retry_update_ids)
qed

theorem prepareHeaders_failure_is_retried_witness:
  "0 < length (waiting (run awaiting_headers (init [] True)))
   \<and> waiting (run awaiting_headers (init [] True)) ! 0 = PQ_headers item1
   \<and> \<not> isClientError ''token expired''
   \<and> store (step (Headers_done 0 (Inl (Error ''token expired'')))
              (run awaiting_headers (init [] True))) = [item1]
   \<and> failed (step (Headers_done 0 (Inl (Error ''token expired'')))
              (run awaiting_headers (init [] True))) = []
   \<and> opq (step (Headers_done 0 (Inl (Error ''token expired'')))
              (run awaiting_headers (init [] True))) = [HR_update item1]
   \<and> timers (step Storage_done (step (Headers_done 0 (Inl (Error ''token expired'')))
              (run awaiting_headers (init [] True)))) = [2000]"
proof -
  have a: "0 < length (waiting (run awaiting_headers (init [] True)))"
    and b: "waiting (run awaiting_headers (init [] True)) ! 0 = PQ_headers item1"
    unfolding awaiting_headers_state by simp_all
  have c: "\<not> isClientError ''token expired''" by (simp add: isClientError_def)
  have d: "backoff_delay item1 = 2000"
    by (simp add: backoff_delay_def item1_def new_payload_def)
  note th = prepareHeaders_failure_is_retried[OF a b c]
  let ?s' = "step (Headers_done 0 (Inl (Error ''token expired'')))
               (run awaiting_headers (init [] True))"
  from th have first: "store ?s' = [item1] \<and> failed ?s' = [] \<and> timers ?s' = []
      \<and> opq ?s' = [HR_update item1]"
    unfolding awaiting_headers_state by (simp add: Let_def)
  from th have "\<forall>s1 rest. opq s1 = HR_update item1 # rest \<longrightarrow>
      timers (step Storage_done s1) = timers s1 @ [backoff_delay item1]"
    by (simp add: Let_def)
  with first have "timers (step Storage_done ?s') = [2000]" by (simp add: d)
  with first a b c show ?thesis by simp
qed

text \<open>
  C9 (only the head is ever submitted). In every state the engine can reach, a step
  either makes no call of \<open>fetch\<close>, or makes exactly one, built from the request at
  index 0 of the persisted queue, which the step leaves in place. A step changes
  the queue in no other way than appending one item at the end, dropping the head,
  or incrementing the head's \<open>retryCount\<close>; so the order of the queue is the order of
  enqueueing, and no item behind the head is sent while the head is there.
\<close>

theorem only_head_is_submitted:
  "(fetched (step e (run es (init q b))) = fetched (run es (init q b))
    \<or> (\<exists>currentReq rest dynamicHeaders.
          store (run es (init q b)) = currentReq # rest \<and>
          store (step e (run es (init q b))) = currentReq # rest \<and>
          fetched (step e (run es (init q b))) =
            fetched (run es (init q b)) @ [fetch_of currentReq dynamicHeaders]))
   \<and> (store (step e (run es (init q b))) = store (run es (init q b))
      \<or> (\<exists>p. store (step e (run es (init q b))) = store (run es (init q b)) @ [p])
      \<or> store (step e (run es (init q b))) = drop 1 (store (run es (init q b)))
      \<or> (\<exists>h rest. store (run es (init q b)) = h # rest \<and>
            store (step e (run es (init q b))) = h\<lparr>retryCount := retryCount h + 1\<rparr> # rest))"
proof -
  have "pass_inv (run es (init q b))" by (simp add: inv_run inv_init)
  from submits_step[OF this, of e] queue_step_step[of "run es (init q b)" e]
  show ?thesis unfolding submits_head_def queue_step_def by auto
qed

theorem only_head_is_submitted_witness:
  "store (run (two_queued @ [Set_onLine True, Window_online]) (init [] False)) = [item1, item2]
   \<and> fetched (run (two_queued @ [Set_onLine True, Window_online]) (init [] False)) = []
   \<and> fetched (step Storage_done
        (run (two_queued @ [Set_onLine True, Window_online]) (init [] False)))
       = [fetch_of item1 Map.empty]"
  using only_head_is_submitted[of Storage_done "two_queued @ [Set_onLine True, Window_online]"
      "[]" False]
  unfolding run_append two_queued_state by (simp add: run_defs init_def)

text \<open>
  C10 (a response that is not \<open>ok\<close> and not 4xx). When \<open>fetch\<close> resolves to a response
  with \<open>ok = false\<close> whose status is missing or outside 400..499, the step leaves
  the queue and the calls of \<open>onError\<close> and \<open>onSuccess\<close> as they were and issues the
  update of \<open>handleRetry\<close> for the same request; when that update completes, a timer
  with the backoff delay is set, the queue holds the same items, and \<open>onError\<close> has
  still not been called.
\<close>

theorem non_client_failure_response_is_retried:
  assumes "i < length (waiting s)" and "waiting s ! i = PQ_fetch currentReq"
    and "\<not> ok resp" and "\<forall>st. status resp = Some st \<longrightarrow> \<not> (400 \<le> st \<and> st < 500)"
  shows "(let s' = step (Fetch_done i (Inr resp)) s in
            store s' = store s \<and> failed s' = failed s \<and> succeeded s' = succeeded s \<and>
            timers s' = timers s \<and> opq s' = opq s @ [HR_update currentReq])
         \<and> (\<forall>s1 rest. opq s1 = HR_update currentReq # rest \<longrightarrow>
              (let s2 = step Storage_done s1 in
                 timers s2 = timers s1 @ [backoff_delay currentReq] \<and>
                 map req_id (store s2) = map req_id (store s1) \<and>
                 failed s2 = failed s1))"
proof -
  have "processQueue_response currentReq (Inr resp) s0 =
          notifyListeners (s0\<lparr>opq := opq s0 @ [HR_update currentReq]\<rparr>)" for s0
    using assms(3,4) server_error_not_client[of resp]
    by (cases "status resp") (auto simp: processQueue_response_def catch_retry)
  with assms(1,2) have "step (Fetch_done i (Inr resp)) s =
      notifyListeners
        (s\<lparr>waiting := remove_nth i (waiting s), opq := opq s @ [HR_update currentReq]\<rparr>)"
    by (simp add: step_def)
  then show ?thesis by (simp add: Let_def retry_completes retry_update_ids)
qed

theorem non_client_failure_response_is_retried_witness:
  "0 < length (waiting (run awaiting_fetch (init [] True)))
   \<and> waiting (run awaiting_fetch (init [] True)) ! 0 = PQ_fetch item1
   \<and> \<not> ok no_status \<and> status no_status = None
   \<and> store (step (Fetch_done 0 (Inr no_status)) (run awaiting_fetch (init [] True))) = [item1]
   \<and> failed (step (Fetch_done 0 (Inr no_status)) (run awaiting_fetch (init [] True))) = []
   \<and> opq (step (Fetch_done 0 (Inr no_status)) (run awaiting_fetch (init [] True)))
       = [HR_update item1]
   \<and> timers (step Storage_done
        (step (Fetch_done 0 (Inr no_status)) (run awaiting_fetch (init [] True)))) = [2000]"
proof -
  have a: "0 < length (waiting (run awaiting_fetch (init [] True)))"
    and b: "waiting (run awaiting_fetch (init [] True)) ! 0 = PQ_fetch item1"
    unfolding awaiting_fetch_state by simp_all
  have c: "\<not> ok no_status"
    and d: "\<forall>st. status no_status = Some st \<longrightarrow> \<not> (400 \<le> st \<and> st < 500)"
    by (simp_all add: no_status_def)
  have e: "backoff_delay item1 = 2000"
    by (simp add: backoff_delay_def item1_def new_payload_def)
  have f: "status no_status = None" by (simp add: no_status_def)
  note th = non_client_failure_response_is_retried[OF a b c d]
  let ?s' = "step (Fetch_done 0 (Inr no_status)) (run awaiting_fetch (init [] True))"
  from th have first: "store ?s' = [item1] \<and> failed ?s' = [] \<and> timers ?s' = []
      \<and> opq ?s' = [HR_update item1]"
    unfolding awaiting_fetch_state by (simp add: Let_def)
  from th have "\<forall>s1 rest. opq s1 = HR_update item1 # rest \<longrightarrow>
      timers (step Storage_done s1) = timers s1 @ [backoff_delay item1]"
    by (simp add: Let_def)
  with first have "timers (step Storage_done ?s') = [2000]" by (simp add: e)
  with first a b c f show ?thesis by simp
qed

section \<open>Further properties of the engine\<close>

text \<open>
  At most one delivery is in flight: in every state the engine can reach, either no
  call of \<open>processQueue\<close> or \<open>handleRetry\<close> is suspended, or exactly one is and
  \<open>isSyncing\<close> is set.
\<close>

theorem at_most_one_pass_in_flight:
  "(holders (run es (init q b)) = [] \<and> waiting (run es (init q b)) = [])
   \<or> (isSyncing (run es (init q b))
       \<and> length (holders (run es (init q b))) + length (waiting (run es (init q b))) = 1)"
proof -
  have "pass_inv (run es (init q b))" by (simp add: inv_run inv_init)
  then show ?thesis by (auto simp: pass_inv_def free_def)
qed

text \<open>
  A pass that finds the queue empty clears the flag and notifies \<open>false\<close> twice
  (once before \<open>return\<close>, once from \<open>finally\<close>).
\<close>

theorem empty_queue_pass_goes_idle:
  assumes "opq s = PQ_get # rest" and "store s = []"
  shows "\<not> isSyncing (step Storage_done s)
         \<and> notified (step Storage_done s) = notified s @ [False, False]
         \<and> opq (step Storage_done s) = rest \<and> fetched (step Storage_done s) = fetched s"
  using assms by (simp add: step_def storage_resolved_def processQueue_got_def)

theorem empty_queue_pass_goes_idle_witness:
  "opq (step Window_online (init [] True)) = [PQ_get]
   \<and> store (step Window_online (init [] True)) = []
   \<and> \<not> isSyncing (step Storage_done (step Window_online (init [] True)))
   \<and> notified (step Storage_done (step Window_online (init [] True))) = [True, False, False]"
proof -
  have a: "opq (step Window_online (init [] True)) = [PQ_get]"
    and b: "store (step Window_online (init [] True)) = []"
    and c: "notified (step Window_online (init [] True)) = [True]"
    by (simp_all add: step_def processQueue_def init_def Let_def)
  from empty_queue_pass_goes_idle[OF a b] a b c show ?thesis by simp
qed

text \<open>
  When the update of \<open>handleRetry\<close> completes, the flag is released and the listeners
  are told \<open>false\<close>.
\<close>

theorem retry_releases_guard:
  assumes "opq s = HR_update req # rest"
  shows "\<not> isSyncing (step Storage_done s)
         \<and> notified (step Storage_done s) = notified s @ [False]"
  using assms by (simp add: step_def storage_resolved_def handleRetry_updated_def Let_def)

theorem retry_releases_guard_witness:
  "opq (step (Fetch_done 0 (Inr no_status)) (run awaiting_fetch (init [] True)))
     = [HR_update item1]
   \<and> \<not> isSyncing (step Storage_done
           (step (Fetch_done 0 (Inr no_status)) (run awaiting_fetch (init [] True))))
   \<and> notified (step Storage_done
           (step (Fetch_done 0 (Inr no_status)) (run awaiting_fetch (init [] True))))
       = [True, True, False]"
proof -
  let ?s' = "step (Fetch_done 0 (Inr no_status)) (run awaiting_fetch (init [] True))"
  have a: "opq ?s' = [HR_update item1]" and b: "notified ?s' = [True, True]"
    unfolding awaiting_fetch_state
    by (simp_all add: run_defs no_status_def server_error_def show_status_def isClientError_def)
  from retry_releases_guard[OF a] a b show ?thesis by simp
qed

end
